theory Spec2Isabelle
  imports Complex_Main
begin

section \<open>The Arc/Info ASCII grid codec of icepack\<close>

text \<open>
  A shallow embedding of \<^verbatim>\<open>src/icepack/grid/arcinfo.py\<close>: what the functions
  \<^verbatim>\<open>write\<close> and \<^verbatim>\<open>read\<close> do on the text of their stream, and the
  \<^verbatim>\<open>GridData\<close> objects they take and return. \<open>write_body\<close> is \<^verbatim>\<open>write\<close>
  from the stream on (line 37 and lines 44 to 55), \<open>read_body\<close> is \<^verbatim>\<open>read\<close> from
  the stream on (lines 76 to 90). How the stream is obtained from the argument
  \<^verbatim>\<open>filename_or_file\<close> (lines 39 to 42 and 71 to 74), and when the Python runtime
  closes a file object that the call opened, is not part of the embedding.
\<close>

subsection \<open>Python values the codec relies on\<close>

text \<open>
  The exceptions that the lines embedded here raise: \<open>IndexError\<close> comes from
  \<^verbatim>\<open>split()[1]\<close>, \<open>ValueError\<close> from \<^verbatim>\<open>int\<close>, \<^verbatim>\<open>float\<close>,
  \<^verbatim>\<open>np.zeros\<close> and the row assignment.
\<close>

datatype error = IndexError | ValueError

text \<open>
  The builtins of Python and numpy that the codec calls on numbers are parameters of the
  model: \<open>'f\<close> is the type of floating-point values, \<open>py_int\<close> is \<^verbatim>\<open>int(s)\<close> and
  \<open>py_float\<close> is \<^verbatim>\<open>float(s)\<close> (\<open>None\<close> where Python raises ValueError),
  \<open>py_eq\<close> is the numeric comparison \<^verbatim>\<open>==\<close> that masks the missing cells,
  \<open>fmt_int\<close> and \<open>fmt\<close> are \<^verbatim>\<open>"{0}".format(x)\<close> on a shape entry and on a number,
  \<open>fzero\<close> is the \<^verbatim>\<open>0.0\<close> of \<^verbatim>\<open>np.zeros\<close>.
\<close>

record 'f builtins =
  py_int :: "string \<Rightarrow> int option"
  py_float :: "string \<Rightarrow> 'f option"
  py_eq :: "'f \<Rightarrow> 'f \<Rightarrow> bool"
  fmt_int :: "nat \<Rightarrow> string"
  fmt :: "'f \<Rightarrow> string"
  fzero :: "'f"

text \<open>
  A character is a code point below 256. \<open>is_space\<close> is the whitespace of
  \<^verbatim>\<open>str.split()\<close> in that range: tab, line feed, vertical tab, form feed, carriage
  return, the four separators 0x1C to 0x1F, the space, NEL and the no-break space.
\<close>

definition is_space :: "char \<Rightarrow> bool" where
  "is_space c \<longleftrightarrow>
     c \<in> {CHR 0x09, CHR 0x0A, CHR 0x0B, CHR 0x0C, CHR 0x0D, CHR 0x1C, CHR 0x1D, CHR 0x1E,
          CHR 0x1F, CHR 0x20, CHR 0x85, CHR 0xA0}"

text \<open>
  \<^verbatim>\<open>s.split()\<close>: the maximal runs of characters that are not whitespace, in order.
  \<open>split_acc cur s\<close> holds in \<open>cur\<close> the token being read.
\<close>

fun split_acc :: "string \<Rightarrow> string \<Rightarrow> string list" where
  "split_acc cur [] = (if cur = [] then [] else [cur])"
| "split_acc cur (c # cs) =
     (if is_space c then (if cur = [] then split_acc [] cs else cur # split_acc [] cs)
      else split_acc (cur @ [c]) cs)"

definition split_ws :: "string \<Rightarrow> string list" where
  "split_ws s = split_acc [] s"

text \<open>
  \<^verbatim>\<open>f.readline()\<close> on the text a stream still holds: the line up to and including its
  line feed and the text after it; the rest of the text when no line feed is left, which
  is the empty string at the end of the stream. The text is what Python hands to the
  program, line ends already translated to line feeds.
\<close>

fun readline :: "string \<Rightarrow> string \<times> string" where
  "readline [] = ([], [])"
| "readline (c # cs) =
     (if c = CHR 0x0A then ([c], cs)
      else (case readline cs of (l, r) \<Rightarrow> (c # l, r)))"

text \<open>
  A computation on a stream returns an error or a value, and the text the stream holds
  afterwards. \<open>seq m f\<close> runs \<open>f\<close> on the value of \<open>m\<close> and stops at an error.
\<close>

definition seq :: "('e + 'a) \<times> 's \<Rightarrow> ('a \<Rightarrow> 's \<Rightarrow> ('e + 'b) \<times> 's) \<Rightarrow> ('e + 'b) \<times> 's" where
  "seq m f = (case m of (Inl e, s) \<Rightarrow> (Inl e, s) | (Inr a, s) \<Rightarrow> f a s)"

subsection \<open>GridData\<close>

text \<open>
  Modelled from the spec: the class \<^verbatim>\<open>GridData\<close> of \<^verbatim>\<open>icepack.grid\<close>, which the
  codec imports and whose source is not part of the files at hand. The record holds the
  attributes the spec lists: \<open>origin\<close> (\<^verbatim>\<open>_origin\<close> in the codec), \<open>delta\<close> (the cell
  size, \<^verbatim>\<open>_delta\<close>), \<open>shape\<close> (rows, columns), \<open>values\<close> (row 0 first) and
  \<open>missing_mask\<close>. \<open>wf_grid\<close> is the invariant that values and mask have the shape.
\<close>

record 'f grid =
  origin :: "'f \<times> 'f"
  delta :: "'f"
  shape :: "nat \<times> nat"
  "values" :: "'f list list"
  missing_mask :: "bool list list"

definition wf_grid :: "'f grid \<Rightarrow> bool" where
  "wf_grid q \<longleftrightarrow>
     length (values q) = fst (shape q) \<and> length (missing_mask q) = fst (shape q) \<and>
     list_all (\<lambda>r. length r = snd (shape q)) (values q) \<and>
     list_all (\<lambda>r. length r = snd (shape q)) (missing_mask q)"

text \<open>
  Modelled from the spec: the constructor with a missing-data value. Every cell
  numerically equal to the value is masked; the shape is that of the array passed in.
\<close>

definition GridData :: "'f builtins \<Rightarrow> 'f \<times> 'f \<Rightarrow> 'f \<Rightarrow> nat \<times> nat \<Rightarrow> 'f list list \<Rightarrow> 'f \<Rightarrow> 'f grid" where
  "GridData B org dx shp data missing =
     \<lparr>origin = org, delta = dx, shape = shp, values = data,
      missing_mask = map (map (\<lambda>v. py_eq B v missing)) data\<rparr>"

text \<open>
  Modelled from the spec: \<^verbatim>\<open>q[i, j]\<close>, the number stored at row \<open>i\<close> and column
  \<open>j\<close> whatever the mask says, and the test \<^verbatim>\<open>q.data[i, j] is ma.masked\<close>.
\<close>

definition getitem :: "'f grid \<Rightarrow> nat \<Rightarrow> nat \<Rightarrow> 'f" where
  "getitem q i j = values q ! i ! j"

definition is_missing :: "'f grid \<Rightarrow> nat \<Rightarrow> nat \<Rightarrow> bool" where
  "is_missing q i j = missing_mask q ! i ! j"

subsection \<open>write, line 37 and lines 44 to 55\<close>

text \<open>
  Each \<^verbatim>\<open>output_file.write(s)\<close> appends \<open>s\<close> to the text \<open>out\<close> written to the
  stream so far; \<open>write_body\<close> takes the text before the call and returns the text
  after it. The inner loop runs \<open>j\<close> over \<^verbatim>\<open>range(nx)\<close>, the outer loop runs
  \<open>i\<close> over \<^verbatim>\<open>range(ny - 1, -1, -1)\<close>.
\<close>

definition cell_out :: "'f grid \<Rightarrow> 'f \<Rightarrow> nat \<Rightarrow> nat \<Rightarrow> 'f" where
  "cell_out q missing i j = (if \<not> is_missing q i j then getitem q i j else missing)"

definition write_cell :: "'f builtins \<Rightarrow> 'f grid \<Rightarrow> 'f \<Rightarrow> nat \<Rightarrow> nat \<Rightarrow> string \<Rightarrow> string" where
  "write_cell B q missing i j out =
     (let v = cell_out q missing i j
      in out @ fmt B v @ '' '')"

definition write_row :: "'f builtins \<Rightarrow> 'f grid \<Rightarrow> 'f \<Rightarrow> nat \<Rightarrow> nat \<Rightarrow> string \<Rightarrow> string" where
  "write_row B q missing nx i out =
     fold (write_cell B q missing i) [0..<nx] out @ [CHR 0x0A]"

definition write_body :: "'f builtins \<Rightarrow> 'f grid \<Rightarrow> 'f \<Rightarrow> string \<Rightarrow> string" where
  "write_body B q missing out0 =
     (let (ny, nx) = shape q;
          out1 = out0 @ ''ncols           '' @ fmt_int B nx @ [CHR 0x0A];
          out2 = out1 @ ''nrows           '' @ fmt_int B ny @ [CHR 0x0A];
          out3 = out2 @ ''xllcorner       '' @ fmt B (fst (origin q)) @ [CHR 0x0A];
          out4 = out3 @ ''yllcorner       '' @ fmt B (snd (origin q)) @ [CHR 0x0A];
          out5 = out4 @ ''cellsize        '' @ fmt B (delta q) @ [CHR 0x0A];
          out6 = out5 @ ''NODATA_value    '' @ fmt B missing @ [CHR 0x0A]
      in fold (write_row B q missing nx) (rev [0..<ny]) out6)"

subsection \<open>read, lines 76 to 90\<close>

text \<open>
  Each function takes the text that \<^verbatim>\<open>input_file\<close> still holds and returns, with
  its result, the text that the stream holds afterwards. \<^verbatim>\<open>rd()\<close> is the second
  token of the next line, IndexError when the line has fewer than two tokens.
\<close>

definition rd :: "string \<Rightarrow> (error + string) \<times> string" where
  "rd s =
     (case readline s of (line, s') \<Rightarrow>
        (let toks = split_ws line
         in if length toks < 2 then (Inl IndexError, s') else (Inr (toks ! 1), s')))"

definition rd_int :: "'f builtins \<Rightarrow> string \<Rightarrow> (error + int) \<times> string" where
  "rd_int B s =
     seq (rd s) (\<lambda>t s'. case py_int B t of None \<Rightarrow> (Inl ValueError, s') | Some n \<Rightarrow> (Inr n, s'))"

definition rd_float :: "'f builtins \<Rightarrow> string \<Rightarrow> (error + 'f) \<times> string" where
  "rd_float B s =
     seq (rd s) (\<lambda>t s'. case py_float B t of None \<Rightarrow> (Inl ValueError, s') | Some x \<Rightarrow> (Inr x, s'))"

text \<open>Lines 79 to 84: the six header values, in the order the code reads them.\<close>

definition read_header ::
  "'f builtins \<Rightarrow> string \<Rightarrow> (error + int \<times> int \<times> 'f \<times> 'f \<times> 'f \<times> 'f) \<times> string" where
  "read_header B s0 =
     seq (rd_int B s0) (\<lambda>nx s1.
     seq (rd_int B s1) (\<lambda>ny s2.
     seq (rd_float B s2) (\<lambda>xo s3.
     seq (rd_float B s3) (\<lambda>yo s4.
     seq (rd_float B s4) (\<lambda>dx s5.
     seq (rd_float B s5) (\<lambda>missing s6.
       (Inr (nx, ny, xo, yo, dx, missing), s6)))))))"

text \<open>
  \<^verbatim>\<open>np.zeros((ny, nx))\<close>: an array of zeros, ValueError on a negative dimension.
\<close>

definition zeros :: "'f builtins \<Rightarrow> int \<Rightarrow> int \<Rightarrow> error + 'f list list" where
  "zeros B ny nx =
     (if ny < 0 \<or> nx < 0 then Inl ValueError
      else Inr (replicate (nat ny) (replicate (nat nx) (fzero B))))"

text \<open>
  \<^verbatim>\<open>data[i, :] = xs\<close> on a row of \<open>nx\<close> cells, by numpy's broadcasting: a list of
  \<open>nx\<close> numbers is stored as it is, a list of one number fills the row, and any other
  length raises ValueError. \<open>None\<close> is the ValueError.
\<close>

definition assign_row :: "nat \<Rightarrow> 'f list \<Rightarrow> 'f list option" where
  "assign_row nx xs =
     (if length xs = nx then Some xs
      else if length xs = 1 then Some (replicate nx (hd xs))
      else None)"

text \<open>
  \<^verbatim>\<open>[float(q) for q in line.split()]\<close> followed by the assignment: the row that one
  data line gives, \<open>None\<close> when a token is not a number or the count does not fit.
\<close>

definition parse_row :: "'f builtins \<Rightarrow> nat \<Rightarrow> string \<Rightarrow> 'f list option" where
  "parse_row B nx line =
     (case those (map (py_float B) (split_ws line)) of
        None \<Rightarrow> None
      | Some xs \<Rightarrow> assign_row nx xs)"

text \<open>Lines 87 and 88: the loop over the row indices \<open>idx\<close>, one line per index.\<close>

fun read_rows ::
  "'f builtins \<Rightarrow> nat \<Rightarrow> nat list \<Rightarrow> 'f list list \<Rightarrow> string \<Rightarrow> (error + 'f list list) \<times> string" where
  "read_rows B nx [] data s = (Inr data, s)"
| "read_rows B nx (i # idx) data s =
     (case readline s of (line, s') \<Rightarrow>
        (case parse_row B nx line of
           None \<Rightarrow> (Inl ValueError, s')
         | Some row \<Rightarrow> read_rows B nx idx (data[i := row]) s'))"

definition read_body :: "'f builtins \<Rightarrow> string \<Rightarrow> (error + 'f grid) \<times> string" where
  "read_body B s0 =
     seq (read_header B s0) (\<lambda>(nx, ny, xo, yo, dx, missing) s6.
       case zeros B ny nx of
         Inl e \<Rightarrow> (Inl e, s6)
       | Inr data0 \<Rightarrow>
           seq (read_rows B (nat nx) (rev [0..<nat ny]) data0 s6) (\<lambda>data s.
             (Inr (GridData B (xo, yo) dx (nat ny, nat nx) data missing), s)))"

subsection \<open>Lines and tokens of a text\<close>

text \<open>
  \<open>skip_lines n s\<close> is what \<open>n\<close> calls of \<^verbatim>\<open>readline\<close> leave of \<open>s\<close>, \<open>line_at k s\<close>
  is the line that call number \<open>k\<close> (from 0) returns, and \<open>join_lines\<close> is the text of
  the given lines, each ended by a line feed.
\<close>

fun skip_lines :: "nat \<Rightarrow> string \<Rightarrow> string" where
  "skip_lines 0 s = s"
| "skip_lines (Suc n) s = skip_lines n (snd (readline s))"

definition line_at :: "nat \<Rightarrow> string \<Rightarrow> string" where
  "line_at k s = fst (readline (skip_lines k s))"

definition join_lines :: "string list \<Rightarrow> string" where
  "join_lines ls = concat (map (\<lambda>l. l @ [CHR 0x0A]) ls)"

text \<open>A token is a string that is not empty and holds no whitespace.\<close>

definition token :: "string \<Rightarrow> bool" where
  "token t \<longleftrightarrow> t \<noteq> [] \<and> list_all (\<lambda>c. \<not> is_space c) t"

subsection \<open>The format, in the words of the specification\<close>

text \<open>
  The definitions of this subsection follow the text of the specification, not the code;
  the theorems compare them with the functions above. \<open>header_values\<close> is the header
  that six value tokens give: two integers, then four floating-point numbers, and a
  ValueError when a token is not such a number.
\<close>

definition header_values ::
  "'f builtins \<Rightarrow> string list \<Rightarrow> error + int \<times> int \<times> 'f \<times> 'f \<times> 'f \<times> 'f" where
  "header_values B vs =
     (case (py_int B (vs ! 0), py_int B (vs ! 1), py_float B (vs ! 2), py_float B (vs ! 3),
            py_float B (vs ! 4), py_float B (vs ! 5)) of
        (Some nx, Some ny, Some xo, Some yo, Some dx, Some missing) \<Rightarrow>
          Inr (nx, ny, xo, yo, dx, missing)
      | _ \<Rightarrow> Inl ValueError)"

text \<open>
  \<open>ljust n s\<close> pads \<open>s\<close> with spaces on the right to the width \<open>n\<close>. A header line
  is a keyword padded to 16 columns and a value; \<open>header_fields\<close> lists the six
  keywords with their values, in the order of the format.
\<close>

definition ljust :: "nat \<Rightarrow> string \<Rightarrow> string" where
  "ljust n s = s @ replicate (n - length s) CHR '' ''"

definition header_fields :: "'f builtins \<Rightarrow> 'f grid \<Rightarrow> 'f \<Rightarrow> (string \<times> string) list" where
  "header_fields B q missing =
     [(''ncols'', fmt_int B (snd (shape q))),
      (''nrows'', fmt_int B (fst (shape q))),
      (''xllcorner'', fmt B (fst (origin q))),
      (''yllcorner'', fmt B (snd (origin q))),
      (''cellsize'', fmt B (delta q)),
      (''NODATA_value'', fmt B missing)]"

definition header_line :: "string \<times> string \<Rightarrow> string" where
  "header_line kv = ljust 16 (fst kv) @ snd kv"

text \<open>
  The data line of the storage row \<open>i\<close>: the numbers of its columns from west to east,
  each followed by a space, the missing value standing for a masked cell. The lines of a
  file are the six header lines and the data lines of the rows from the last storage row
  to row 0.
\<close>

definition row_line :: "'f builtins \<Rightarrow> 'f grid \<Rightarrow> 'f \<Rightarrow> nat \<Rightarrow> string" where
  "row_line B q missing i =
     concat (map (\<lambda>j. fmt B (cell_out q missing i j) @ '' '') [0..<snd (shape q)])"

definition file_lines :: "'f builtins \<Rightarrow> 'f grid \<Rightarrow> 'f \<Rightarrow> string list" where
  "file_lines B q missing =
     map header_line (header_fields B q missing) @
     map (row_line B q missing) (rev [0..<fst (shape q)])"

subsection \<open>Concrete inputs\<close>

text \<open>
  \<open>B0\<close> gives the builtins on the numerals that the examples below use, over the reals:
  on these it agrees with Python (\<^verbatim>\<open>float("3.5")\<close> is 3.5 and prints as
  \<^verbatim>\<open>3.5\<close>). Every other string is rejected by its \<open>py_int\<close> and \<open>py_float\<close>, and
  every other number prints as a placeholder; the examples never leave the tables.
\<close>

definition float_table :: "(string \<times> real) list" where
  "float_table =
     [(''0.0'', 0), (''1.0'', 1), (''2.0'', 2), (''3.5'', 7 / 2), (''5.0'', 5), (''6.0'', 6),
      (''7.0'', 7), (''10.0'', 10), (''-1.0'', - 1), (''-9999.0'', - 9999)]"

definition int_table :: "(string \<times> nat) list" where
  "int_table = [(''0'', 0), (''1'', 1), (''2'', 2), (''3'', 3)]"

definition B0 :: "real builtins" where
  "B0 =
     \<lparr>py_int = (\<lambda>t. map_option int (map_of int_table t)),
      py_float = map_of float_table,
      py_eq = (=),
      fmt_int = (\<lambda>n. case map_of (map (\<lambda>(t, v). (v, t)) int_table) n of
                         Some t \<Rightarrow> t | None \<Rightarrow> ''?''),
      fmt = (\<lambda>x. case map_of (map (\<lambda>(t, v). (v, t)) float_table) x of
                     Some t \<Rightarrow> t | None \<Rightarrow> ''nan''),
      fzero = 0\<rparr>"

text \<open>The file of the scenario of the specification, and the grid it describes.\<close>

definition scenario_text :: string where
  "scenario_text =
     ''ncols 2\<newline>nrows 2\<newline>xllcorner 0.0\<newline>yllcorner 0.0\<newline>cellsize 10.0\<newline>NODATA_value -1.0\<newline>5.0 6.0\<newline>1.0 2.0\<newline>''"

definition scenario_grid :: "real grid" where
  "scenario_grid =
     \<lparr>origin = (0, 0), delta = 10, shape = (2, 2), values = [[1, 2], [5, 6]],
      missing_mask = [[False, False], [False, False]]\<rparr>"

text \<open>
  The header of the scenario line by line, a header that carries the same values under
  other keywords, and the two data lines of the scenario.
\<close>

definition std_header :: "string list" where
  "std_header =
     [''ncols 2'', ''nrows 2'', ''xllcorner 0.0'', ''yllcorner 0.0'', ''cellsize 10.0'',
      ''NODATA_value -1.0'']"



text \<open>
  A file that declares three rows and holds two data lines; the same with no column,
  where the two data lines are empty, and the grid that \<open>read\<close> returns for it.
\<close>

definition truncated_text :: string where
  "truncated_text =
     ''ncols 2\<newline>nrows 3\<newline>xllcorner 0.0\<newline>yllcorner 0.0\<newline>cellsize 10.0\<newline>NODATA_value -1.0\<newline>5.0 6.0\<newline>1.0 2.0\<newline>''"

definition no_columns_text :: string where
  "no_columns_text =
     ''ncols 0\<newline>nrows 3\<newline>xllcorner 0.0\<newline>yllcorner 0.0\<newline>cellsize 10.0\<newline>NODATA_value -1.0\<newline>\<newline>\<newline>''"

definition no_columns_grid :: "real grid" where
  "no_columns_grid =
     \<lparr>origin = (0, 0), delta = 10, shape = (3, 0), values = [[], [], []],
      missing_mask = [[], [], []]\<rparr>"

text \<open>
  Two files of two columns: the first data line of one holds a single token, that of the
  other holds three. \<open>short_row_grid\<close> is what \<open>read\<close> returns for the first.
\<close>

definition short_row_text :: string where
  "short_row_text =
     ''ncols 2\<newline>nrows 2\<newline>xllcorner 0.0\<newline>yllcorner 0.0\<newline>cellsize 10.0\<newline>NODATA_value -1.0\<newline>5.0\<newline>1.0 2.0\<newline>''"

definition short_row_grid :: "real grid" where
  "short_row_grid =
     \<lparr>origin = (0, 0), delta = 10, shape = (2, 2), values = [[1, 2], [5, 5]],
      missing_mask = [[False, False], [False, False]]\<rparr>"

definition long_row_text :: string where
  "long_row_text =
     ''ncols 2\<newline>nrows 2\<newline>xllcorner 0.0\<newline>yllcorner 0.0\<newline>cellsize 10.0\<newline>NODATA_value -1.0\<newline>5.0 6.0 7.0\<newline>1.0 2.0\<newline>''"

text \<open>
  A grid of two rows and two columns with the cell of row 1, column 0 masked over the
  stored number 3.5, and a grid of one cell that is not masked.
\<close>

definition masked_grid :: "real grid" where
  "masked_grid =
     \<lparr>origin = (0, 0), delta = 1, shape = (2, 2), values = [[1, 2], [7 / 2, 5]],
      missing_mask = [[False, False], [True, False]]\<rparr>"

definition collision_grid :: "real grid" where
  "collision_grid =
     \<lparr>origin = (0, 0), delta = 1, shape = (1, 1), values = [[5]],
      missing_mask = [[False]]\<rparr>"

text \<open>
  What reading back the text of \<open>masked_grid\<close>, written with the missing value -9999,
  gives: the masked cell now stores the missing value.
\<close>

definition masked_grid_read :: "real grid" where
  "masked_grid_read =
     \<lparr>origin = (0, 0), delta = 1, shape = (2, 2), values = [[1, 2], [- 9999, 5]],
      missing_mask = [[False, False], [True, False]]\<rparr>"

section \<open>Lemmas\<close>

subsection \<open>Lines of a text\<close>

lemma readline_line:
  "CHR 0x0A \<notin> set l \<Longrightarrow> readline (l @ CHR 0x0A # r) = (l @ [CHR 0x0A], r)"
  by (induction l) auto

lemma line_at_0: "line_at 0 s = fst (readline s)"
  by (simp add: line_at_def)

lemma line_at_Suc: "line_at (Suc k) s = line_at k (snd (readline s))"
  by (simp add: line_at_def)

lemma skip_lines_add: "skip_lines (m + n) s = skip_lines n (skip_lines m s)"
  by (induction m arbitrary: s) auto

lemma line_at_skip: "line_at k (skip_lines m s) = line_at (m + k) s"
  by (simp add: line_at_def skip_lines_add)

lemma join_lines_append: "join_lines (xs @ ys) = join_lines xs @ join_lines ys"
  by (simp add: join_lines_def)

lemma join_lines_skip:
  "list_all (\<lambda>l. CHR 0x0A \<notin> set l) ls \<Longrightarrow> skip_lines (length ls) (join_lines ls @ r) = r"
  by (induction ls) (simp_all add: join_lines_def readline_line)

lemma join_lines_line_at:
  "list_all (\<lambda>l. CHR 0x0A \<notin> set l) ls \<Longrightarrow> k < length ls \<Longrightarrow>
   line_at k (join_lines ls @ r) = ls ! k @ [CHR 0x0A]"
proof (induction ls arbitrary: k)
  case Nil
  then show ?case by simp
next
  case (Cons l ls)
  then show ?case
    by (cases k) (simp_all add: join_lines_def readline_line line_at_0 line_at_Suc)
qed

subsection \<open>Tokens of a line\<close>

lemma split_acc_token:
  "list_all (\<lambda>c. \<not> is_space c) t \<Longrightarrow> split_acc cur (t @ r) = split_acc (cur @ t) r"
  by (induction t arbitrary: cur) auto

lemma split_acc_snoc_space:
  "is_space c \<Longrightarrow> split_acc cur (s @ [c]) = split_acc cur s"
  by (induction s arbitrary: cur) auto

lemma split_ws_snoc_nl: "split_ws (l @ [CHR 0x0A]) = split_ws l"
  by (simp add: split_ws_def split_acc_snoc_space is_space_def)

lemma split_acc_tokens:
  "list_all token ts \<Longrightarrow>
   split_acc [] (concat (map (\<lambda>t. t @ '' '') ts) @ r) = ts @ split_acc [] r"
proof (induction ts)
  case Nil
  then show ?case by simp
next
  case (Cons t ts)
  then have t: "t \<noteq> []" "list_all (\<lambda>c. \<not> is_space c) t"
    by (simp_all add: token_def)
  have "split_acc [] (t @ CHR '' '' # concat (map (\<lambda>t. t @ '' '') ts) @ r)
        = split_acc t (CHR '' '' # concat (map (\<lambda>t. t @ '' '') ts) @ r)"
    using split_acc_token [OF t(2), of "[]"] by simp
  also have "\<dots> = t # split_acc [] (concat (map (\<lambda>t. t @ '' '') ts) @ r)"
    using t(1) by (simp add: is_space_def)
  finally show ?case using Cons by simp
qed

lemma split_ws_row:
  "list_all token ts \<Longrightarrow> split_ws (concat (map (\<lambda>t. t @ '' '') ts) @ [CHR 0x0A]) = ts"
  using split_acc_tokens [of ts "[CHR 0x0A]"] by (simp add: split_ws_def is_space_def)

lemma split_acc_spaces:
  "split_acc [] (replicate n CHR '' '' @ r) = split_acc [] r"
  by (induction n) (simp_all add: is_space_def)

lemma split_acc_last_token:
  "token v \<Longrightarrow> split_acc [] v = [v]"
  using split_acc_token [of v "[]" "[]"] by (simp add: token_def)

lemma split_ws_ljust:
  assumes "token k" and "length k < n" and "token v"
  shows "split_ws (ljust n k @ v) = [k, v]"
proof -
  from assms(2) obtain n' where n: "n - length k = Suc n'" by (cases "n - length k") auto
  have "split_acc [] (k @ CHR '' '' # replicate n' CHR '' '' @ v)
        = split_acc k (CHR '' '' # replicate n' CHR '' '' @ v)"
    using split_acc_token [of k "[]"] assms(1) by (simp add: token_def)
  also have "\<dots> = k # split_acc [] (replicate n' CHR '' '' @ v)"
    using assms(1) by (simp add: token_def is_space_def)
  also have "\<dots> = [k, v]"
    by (simp add: split_acc_spaces split_acc_last_token assms(3))
  finally show ?thesis by (simp add: split_ws_def ljust_def n)
qed

lemma keyword_tokens:
  "token ''ncols''" "token ''nrows''" "token ''xllcorner''" "token ''yllcorner''"
  "token ''cellsize''" "token ''NODATA_value''"
  by (simp_all add: token_def is_space_def)

lemma token_no_nl: "token t \<Longrightarrow> CHR 0x0A \<notin> set t"
  by (auto simp: token_def list_all_iff is_space_def)

subsection \<open>The header\<close>

lemma seq_Inr:
  "seq m f = (Inr b, s') \<longleftrightarrow> (\<exists>a s. m = (Inr a, s) \<and> f a s = (Inr b, s'))"
  by (auto simp: seq_def split: prod.splits sum.splits)

lemma snd_rd: "snd (rd s) = snd (readline s)"
  by (simp add: rd_def Let_def split: prod.splits)

lemma snd_rd_int: "rd_int B s = (Inr n, s') \<Longrightarrow> s' = snd (readline s)"
  using snd_rd [of s]
  by (auto simp: rd_int_def seq_def split: prod.splits sum.splits option.splits)

lemma snd_rd_float: "rd_float B s = (Inr x, s') \<Longrightarrow> s' = snd (readline s)"
  using snd_rd [of s]
  by (auto simp: rd_float_def seq_def split: prod.splits sum.splits option.splits)

lemma read_header_rest:
  assumes "read_header B s = (Inr hv, s')"
  shows "s' = skip_lines 6 s"
proof -
  from assms obtain nx s1 ny s2 xo s3 yo s4 dx s5 m where
    "rd_int B s = (Inr nx, s1)" "rd_int B s1 = (Inr ny, s2)" "rd_float B s2 = (Inr xo, s3)"
    "rd_float B s3 = (Inr yo, s4)" "rd_float B s4 = (Inr dx, s5)" "rd_float B s5 = (Inr m, s')"
    unfolding read_header_def seq_Inr by auto
  then have "s1 = snd (readline s)" "s2 = snd (readline s1)" "s3 = snd (readline s2)"
    "s4 = snd (readline s3)" "s5 = snd (readline s4)" "s' = snd (readline s5)"
    by (auto dest: snd_rd_int snd_rd_float)
  then show ?thesis by (simp add: numeral_eq_Suc)
qed

lemma rd_line:
  "CHR 0x0A \<notin> set l \<Longrightarrow> 2 \<le> length (split_ws l) \<Longrightarrow>
   rd (l @ CHR 0x0A # r) = (Inr (split_ws l ! 1), r)"
  by (simp add: rd_def readline_line split_ws_snoc_nl)

lemma rd_int_line:
  "CHR 0x0A \<notin> set l \<Longrightarrow> 2 \<le> length (split_ws l) \<Longrightarrow>
   rd_int B (l @ CHR 0x0A # r) =
     (case py_int B (split_ws l ! 1) of None \<Rightarrow> (Inl ValueError, r) | Some n \<Rightarrow> (Inr n, r))"
  by (simp add: rd_int_def rd_line seq_def)

lemma rd_float_line:
  "CHR 0x0A \<notin> set l \<Longrightarrow> 2 \<le> length (split_ws l) \<Longrightarrow>
   rd_float B (l @ CHR 0x0A # r) =
     (case py_float B (split_ws l ! 1) of None \<Rightarrow> (Inl ValueError, r) | Some x \<Rightarrow> (Inr x, r))"
  by (simp add: rd_float_def rd_line seq_def)

lemma list6:
  assumes "length ls = 6"
  obtains l0 l1 l2 l3 l4 l5 where "ls = [l0, l1, l2, l3, l4, l5]"
  using assms by (auto simp: numeral_eq_Suc length_Suc_conv)

lemma read_header_lines:
  assumes "length ls = 6"
    and "list_all (\<lambda>l. CHR 0x0A \<notin> set l \<and> 2 \<le> length (split_ws l)) ls"
  shows "fst (read_header B (join_lines ls @ body)) =
           header_values B (map (\<lambda>l. split_ws l ! 1) ls)"
    and "header_values B (map (\<lambda>l. split_ws l ! 1) ls) = Inr hv \<Longrightarrow>
           read_header B (join_lines ls @ body) = (Inr hv, body)"
proof -
  from assms(1) obtain l0 l1 l2 l3 l4 l5 where ls: "ls = [l0, l1, l2, l3, l4, l5]"
    by (rule list6)
  with assms(2) have ok:
    "CHR 0x0A \<notin> set l0" "2 \<le> length (split_ws l0)" "CHR 0x0A \<notin> set l1" "2 \<le> length (split_ws l1)"
    "CHR 0x0A \<notin> set l2" "2 \<le> length (split_ws l2)" "CHR 0x0A \<notin> set l3" "2 \<le> length (split_ws l3)"
    "CHR 0x0A \<notin> set l4" "2 \<le> length (split_ws l4)" "CHR 0x0A \<notin> set l5" "2 \<le> length (split_ws l5)"
    by simp_all
  show "fst (read_header B (join_lines ls @ body)) =
           header_values B (map (\<lambda>l. split_ws l ! 1) ls)"
    unfolding ls
    by (simp add: join_lines_def read_header_def seq_def rd_int_line rd_float_line ok
        header_values_def split: option.splits)
  show "header_values B (map (\<lambda>l. split_ws l ! 1) ls) = Inr hv \<Longrightarrow>
           read_header B (join_lines ls @ body) = (Inr hv, body)"
    unfolding ls
    by (auto simp add: join_lines_def read_header_def seq_def rd_int_line rd_float_line ok
        header_values_def split: option.splits)
qed

lemma rd_rest:
  "CHR 0x0A \<notin> set l \<Longrightarrow> rd (l @ CHR 0x0A # r) = (fst (rd (l @ [CHR 0x0A])), r)"
  using readline_line [of l r] readline_line [of l "[]"]
  by (simp add: rd_def Let_def)

lemma rd_int_rest:
  "CHR 0x0A \<notin> set l \<Longrightarrow> rd_int B (l @ CHR 0x0A # r) = (fst (rd_int B (l @ [CHR 0x0A])), r)"
  using rd_rest [of l r] rd_rest [of l "[]"]
  by (auto simp: rd_int_def seq_def split: sum.splits option.splits prod.splits)

lemma rd_float_rest:
  "CHR 0x0A \<notin> set l \<Longrightarrow> rd_float B (l @ CHR 0x0A # r) = (fst (rd_float B (l @ [CHR 0x0A])), r)"
  using rd_rest [of l r] rd_rest [of l "[]"]
  by (auto simp: rd_float_def seq_def split: sum.splits option.splits prod.splits)

lemma rd_int_rest_Inr:
  assumes "CHR 0x0A \<notin> set l" and "rd_int B (l @ CHR 0x0A # t1) = (Inr n, r)"
  shows "r = t1" and "rd_int B (l @ CHR 0x0A # t2) = (Inr n, t2)"
  using assms(2) rd_int_rest [OF assms(1), of B t1] rd_int_rest [OF assms(1), of B t2]
  by simp_all

lemma rd_float_rest_Inr:
  assumes "CHR 0x0A \<notin> set l" and "rd_float B (l @ CHR 0x0A # t1) = (Inr x, r)"
  shows "r = t1" and "rd_float B (l @ CHR 0x0A # t2) = (Inr x, t2)"
  using assms(2) rd_float_rest [OF assms(1), of B t1] rd_float_rest [OF assms(1), of B t2]
  by simp_all

lemma read_header_rest_free:
  assumes "length ls = 6" and "list_all (\<lambda>l. CHR 0x0A \<notin> set l) ls"
    and "read_header B (join_lines ls @ t1) = (Inr hv, r)"
  shows "r = t1 \<and> read_header B (join_lines ls @ t2) = (Inr hv, t2)"
proof -
  from assms(1) obtain l0 l1 l2 l3 l4 l5 where ls: "ls = [l0, l1, l2, l3, l4, l5]"
    by (rule list6)
  with assms(2) have ok:
    "CHR 0x0A \<notin> set l0" "CHR 0x0A \<notin> set l1" "CHR 0x0A \<notin> set l2"
    "CHR 0x0A \<notin> set l3" "CHR 0x0A \<notin> set l4" "CHR 0x0A \<notin> set l5"
    by simp_all
  define R5 where "R5 t = l5 @ CHR 0x0A # t" for t
  define R4 where "R4 t = l4 @ CHR 0x0A # R5 t" for t
  define R3 where "R3 t = l3 @ CHR 0x0A # R4 t" for t
  define R2 where "R2 t = l2 @ CHR 0x0A # R3 t" for t
  define R1 where "R1 t = l1 @ CHR 0x0A # R2 t" for t
  have j: "join_lines ls @ t = l0 @ CHR 0x0A # R1 t" for t
    by (simp add: ls join_lines_def R1_def R2_def R3_def R4_def R5_def)
  from assms(3) obtain nx s1 ny s2 xo s3 yo s4 dx s5 m where
    a: "rd_int B (l0 @ CHR 0x0A # R1 t1) = (Inr nx, s1)" "rd_int B s1 = (Inr ny, s2)"
    "rd_float B s2 = (Inr xo, s3)" "rd_float B s3 = (Inr yo, s4)"
    "rd_float B s4 = (Inr dx, s5)" "rd_float B s5 = (Inr m, r)"
    and hv: "hv = (nx, ny, xo, yo, dx, m)"
    unfolding read_header_def seq_Inr j by auto
  from rd_int_rest_Inr [OF ok(1) a(1)]
  have s1: "s1 = R1 t1" and b0: "rd_int B (l0 @ CHR 0x0A # R1 t2) = (Inr nx, R1 t2)" by simp_all
  from a(2) have "rd_int B (l1 @ CHR 0x0A # R2 t1) = (Inr ny, s2)" by (simp add: s1 R1_def)
  from rd_int_rest_Inr [OF ok(2) this]
  have s2: "s2 = R2 t1" and b1: "rd_int B (R1 t2) = (Inr ny, R2 t2)" by (simp_all add: R1_def)
  from a(3) have "rd_float B (l2 @ CHR 0x0A # R3 t1) = (Inr xo, s3)" by (simp add: s2 R2_def)
  from rd_float_rest_Inr [OF ok(3) this]
  have s3: "s3 = R3 t1" and b2: "rd_float B (R2 t2) = (Inr xo, R3 t2)" by (simp_all add: R2_def)
  from a(4) have "rd_float B (l3 @ CHR 0x0A # R4 t1) = (Inr yo, s4)" by (simp add: s3 R3_def)
  from rd_float_rest_Inr [OF ok(4) this]
  have s4: "s4 = R4 t1" and b3: "rd_float B (R3 t2) = (Inr yo, R4 t2)" by (simp_all add: R3_def)
  from a(5) have "rd_float B (l4 @ CHR 0x0A # R5 t1) = (Inr dx, s5)" by (simp add: s4 R4_def)
  from rd_float_rest_Inr [OF ok(5) this]
  have s5: "s5 = R5 t1" and b4: "rd_float B (R4 t2) = (Inr dx, R5 t2)" by (simp_all add: R4_def)
  from a(6) have "rd_float B (l5 @ CHR 0x0A # t1) = (Inr m, r)" by (simp add: s5 R5_def)
  from rd_float_rest_Inr [OF ok(6) this]
  have r: "r = t1" and b5: "rd_float B (R5 t2) = (Inr m, t2)" by (simp_all add: R5_def)
  have "read_header B (join_lines ls @ t2) = (Inr hv, t2)"
    unfolding j read_header_def by (simp add: seq_def b0 b1 b2 b3 b4 b5 hv)
  with r show ?thesis by simp
qed

subsection \<open>The loop over the data lines\<close>

lemma those_length: "those xs = Some ys \<Longrightarrow> length ys = length xs"
  by (induction xs arbitrary: ys) (auto split: option.splits)

lemma those_map_Some: "those (map (\<lambda>x. Some (f x)) xs) = Some (map f xs)"
  by (induction xs) auto

lemma parse_row_count:
  "length (split_ws line) \<noteq> nx \<Longrightarrow> length (split_ws line) \<noteq> 1 \<Longrightarrow> parse_row B nx line = None"
  by (auto simp: parse_row_def assign_row_def split: option.splits dest: those_length)

lemma read_rows_fail:
  "k < length idx \<Longrightarrow> parse_row B nx (line_at k s) = None \<Longrightarrow>
   fst (read_rows B nx idx data s) = Inl ValueError"
proof (induction idx arbitrary: k data s)
  case Nil
  then show ?case by simp
next
  case (Cons i idx)
  obtain line s' where rl: "readline s = (line, s')" by (cases "readline s")
  show ?case
  proof (cases "parse_row B nx line")
    case None
    then show ?thesis by (simp add: rl)
  next
    case (Some row)
    with Cons.prems rl obtain k' where k: "k = Suc k'"
      by (cases k) (auto simp: line_at_0)
    with Cons.prems rl have "k' < length idx" "parse_row B nx (line_at k' s') = None"
      by (simp_all add: line_at_Suc)
    from Cons.IH [OF this] show ?thesis by (simp add: rl Some)
  qed
qed

lemma read_rows_succeed:
  "\<forall>k<length idx. parse_row B nx (line_at k s) \<noteq> None \<Longrightarrow>
   \<exists>d. read_rows B nx idx data s = (Inr d, skip_lines (length idx) s)"
proof (induction idx arbitrary: data s)
  case Nil
  then show ?case by simp
next
  case (Cons i idx)
  obtain line s' where rl: "readline s = (line, s')" by (cases "readline s")
  from Cons.prems have "parse_row B nx (line_at 0 s) \<noteq> None" by auto
  then obtain row where row: "parse_row B nx line = Some row"
    by (auto simp: line_at_0 rl)
  have "\<forall>k<length idx. parse_row B nx (line_at k s') \<noteq> None"
  proof (intro allI impI)
    fix k assume "k < length idx"
    then have "Suc k < length (i # idx)" by simp
    with Cons.prems have "parse_row B nx (line_at (Suc k) s) \<noteq> None" by blast
    then show "parse_row B nx (line_at k s') \<noteq> None" by (simp add: line_at_Suc rl)
  qed
  from Cons.IH [OF this, of "data[i := row]"] show ?case by (simp add: rl row)
qed

lemma read_rows_result:
  "read_rows B nx idx data s = (Inr d, r) \<Longrightarrow> distinct idx \<Longrightarrow> \<forall>i\<in>set idx. i < length data \<Longrightarrow>
   r = skip_lines (length idx) s \<and> length d = length data \<and>
   (\<forall>k<length idx. parse_row B nx (line_at k s) = Some (d ! (idx ! k))) \<and>
   (\<forall>i<length data. i \<notin> set idx \<longrightarrow> d ! i = data ! i)"
proof (induction idx arbitrary: data s)
  case Nil
  then show ?case by simp
next
  case (Cons i idx)
  obtain line s' where rl: "readline s = (line, s')" by (cases "readline s")
  from Cons.prems(1) obtain row where row: "parse_row B nx line = Some row"
    and rec: "read_rows B nx idx (data[i := row]) s' = (Inr d, r)"
    by (auto simp: rl split: option.splits)
  from Cons.prems have d: "distinct idx" "i \<notin> set idx" "i < length data"
    and b: "\<forall>j\<in>set idx. j < length (data[i := row])"
    by simp_all
  from Cons.IH [OF rec d(1) b] have
    r: "r = skip_lines (length idx) s'" and len: "length d = length data"
    and rows: "\<forall>k<length idx. parse_row B nx (line_at k s') = Some (d ! (idx ! k))"
    and keep: "\<forall>j<length data. j \<notin> set idx \<longrightarrow> d ! j = data[i := row] ! j"
    by simp_all
  have "parse_row B nx (line_at k s) = Some (d ! ((i # idx) ! k))" if "k < length (i # idx)" for k
  proof (cases k)
    case 0
    from keep d have "d ! i = row" by simp
    with 0 row show ?thesis by (simp add: line_at_0 rl)
  next
    case (Suc k')
    with that rows show ?thesis by (simp add: line_at_Suc rl)
  qed
  moreover have "d ! j = data ! j" if "j < length data" "j \<notin> set (i # idx)" for j
    using keep that by simp
  ultimately show ?case using r len by (simp add: rl)
qed

lemma read_rows_rev:
  assumes "read_rows B nx (rev [0..<ny]) data s = (Inr d, r)" and "length data = ny"
  shows "r = skip_lines ny s" and "length d = ny"
    and "\<forall>k<ny. parse_row B nx (line_at k s) = Some (d ! (ny - 1 - k))"
proof -
  have "distinct (rev [0..<ny])" "\<forall>i\<in>set (rev [0..<ny]). i < length data"
    using assms(2) by simp_all
  from read_rows_result [OF assms(1) this]
  have *: "r = skip_lines ny s" "length d = ny"
    "\<forall>k<ny. parse_row B nx (line_at k s) = Some (d ! (rev [0..<ny] ! k))"
    using assms(2) by simp_all
  show "r = skip_lines ny s" "length d = ny" by fact+
  show "\<forall>k<ny. parse_row B nx (line_at k s) = Some (d ! (ny - 1 - k))"
  proof (intro allI impI)
    fix k assume k: "k < ny"
    then have "rev [0..<ny] ! k = ny - 1 - k" by (simp add: rev_nth)
    with * k show "parse_row B nx (line_at k s) = Some (d ! (ny - 1 - k))" by simp
  qed
qed

lemma read_rows_rest_free:
  "list_all (\<lambda>l. CHR 0x0A \<notin> set l) ls \<Longrightarrow> length ls = length idx \<Longrightarrow>
   read_rows B nx idx data (join_lines ls @ t1) = (Inr d, r) \<Longrightarrow>
   r = t1 \<and> read_rows B nx idx data (join_lines ls @ t2) = (Inr d, t2)"
proof (induction idx arbitrary: ls data)
  case Nil
  then show ?case by (simp add: join_lines_def)
next
  case (Cons i idx)
  then obtain l ls' where ls: "ls = l # ls'" by (cases ls) auto
  with Cons.prems have l: "CHR 0x0A \<notin> set l" and ls': "list_all (\<lambda>l. CHR 0x0A \<notin> set l) ls'"
    and len: "length ls' = length idx" by simp_all
  have j: "join_lines ls @ t = l @ CHR 0x0A # join_lines ls' @ t" for t
    by (simp add: ls join_lines_def)
  from Cons.prems(3) obtain row where row: "parse_row B nx (l @ [CHR 0x0A]) = Some row"
    and rec: "read_rows B nx idx (data[i := row]) (join_lines ls' @ t1) = (Inr d, r)"
    by (auto simp: j readline_line l split: option.splits)
  from Cons.IH [OF ls' len rec] show ?case
    by (simp add: j readline_line l row)
qed

subsection \<open>The body of read\<close>

lemma shape_GridData: "shape (GridData B org dx shp data m) = shp"
  by (simp add: GridData_def)

lemma read_body_Inr:
  assumes "read_body B s = (Inr g, r)"
  obtains nx ny xo yo dx m d where
    "read_header B s = (Inr (nx, ny, xo, yo, dx, m), skip_lines 6 s)"
    "0 \<le> nx" "0 \<le> ny"
    "read_rows B (nat nx) (rev [0..<nat ny]) (replicate (nat ny) (replicate (nat nx) (fzero B)))
       (skip_lines 6 s) = (Inr d, r)"
    "g = GridData B (xo, yo) dx (nat ny, nat nx) d m"
proof -
  from assms obtain hv s6 where h: "read_header B s = (Inr hv, s6)"
    by (auto simp: read_body_def seq_Inr)
  then have s6: "s6 = skip_lines 6 s" by (rule read_header_rest)
  obtain nx ny xo yo dx m where hv: "hv = (nx, ny, xo, yo, dx, m)" by (cases hv)
  from assms h hv have nn: "0 \<le> nx" "0 \<le> ny"
    by (auto simp: read_body_def seq_def zeros_def split: if_splits)
  with assms h hv obtain d where
    "read_rows B (nat nx) (rev [0..<nat ny]) (replicate (nat ny) (replicate (nat nx) (fzero B))) s6
       = (Inr d, r)" "g = GridData B (xo, yo) dx (nat ny, nat nx) d m"
    by (auto simp: read_body_def seq_def zeros_def split: prod.splits sum.splits)
  with h hv s6 nn show ?thesis by (auto intro: that)
qed

lemma read_body_bad_row:
  assumes "read_header B s = (Inr (nx, ny, xo, yo, dx, m), s')"
    and "k < nat ny" and "parse_row B (nat nx) (line_at (6 + k) s) = None"
  shows "fst (read_body B s) = Inl ValueError"
proof (cases "ny < 0 \<or> nx < 0")
  case True
  with assms(1) show ?thesis by (simp add: read_body_def seq_def zeros_def)
next
  case False
  from assms(1) have s': "s' = skip_lines 6 s" by (rule read_header_rest)
  have "fst (read_rows B (nat nx) (rev [0..<nat ny])
          (replicate (nat ny) (replicate (nat nx) (fzero B))) s') = Inl ValueError"
    using assms(2,3) by (intro read_rows_fail [of k]) (simp_all add: s' line_at_skip)
  with False assms(1) show ?thesis
    by (auto simp: read_body_def seq_def zeros_def split: prod.splits sum.splits)
qed


lemma read_body_rest_free:
  assumes nl: "list_all (\<lambda>l. CHR 0x0A \<notin> set l) ls"
    and rd: "read_body B (join_lines ls @ t1) = (Inr g, r)"
    and len: "length ls = 6 + fst (shape g)"
  shows "r = t1 \<and> read_body B (join_lines ls @ t2) = (Inr g, t2)"
proof -
  let ?hs = "take 6 ls" and ?rs = "drop 6 ls"
  have split: "join_lines ls @ t = join_lines ?hs @ join_lines ?rs @ t" for t
    using join_lines_append [of ?hs ?rs] by simp
  from len have lh: "length ?hs = 6" by simp
  from nl have nh: "list_all (\<lambda>l. CHR 0x0A \<notin> set l) ?hs"
    and nr: "list_all (\<lambda>l. CHR 0x0A \<notin> set l) ?rs"
    by (auto simp: list_all_iff dest: in_set_takeD in_set_dropD)
  from rd obtain nx ny xo yo dx m d where
    h: "read_header B (join_lines ls @ t1) = (Inr (nx, ny, xo, yo, dx, m), skip_lines 6 (join_lines ls @ t1))"
    and nn: "0 \<le> nx" "0 \<le> ny"
    and rows: "read_rows B (nat nx) (rev [0..<nat ny])
       (replicate (nat ny) (replicate (nat nx) (fzero B))) (skip_lines 6 (join_lines ls @ t1)) = (Inr d, r)"
    and g: "g = GridData B (xo, yo) dx (nat ny, nat nx) d m"
    by (rule read_body_Inr)
  from g len have lr: "length ?rs = length (rev [0..<nat ny])"
    by (simp add: shape_GridData)
  have s6: "skip_lines 6 (join_lines ls @ t1) = join_lines ?rs @ t1"
    using join_lines_skip [OF nh, of "join_lines ?rs @ t1"] lh by (simp add: split [symmetric])
  from h have h1: "read_header B (join_lines ?hs @ join_lines ?rs @ t1)
      = (Inr (nx, ny, xo, yo, dx, m), join_lines ?rs @ t1)"
    by (simp add: s6 split [symmetric])
  from read_header_rest_free [OF lh nh h1, of "join_lines ?rs @ t2"]
  have h2: "read_header B (join_lines ls @ t2) = (Inr (nx, ny, xo, yo, dx, m), join_lines ?rs @ t2)"
    by (simp add: split [symmetric])
  from rows have rows1: "read_rows B (nat nx) (rev [0..<nat ny])
       (replicate (nat ny) (replicate (nat nx) (fzero B))) (join_lines ?rs @ t1) = (Inr d, r)"
    by (simp add: s6)
  from read_rows_rest_free [OF nr lr rows1, of t2]
  have r: "r = t1" and rows2: "read_rows B (nat nx) (rev [0..<nat ny])
       (replicate (nat ny) (replicate (nat nx) (fzero B))) (join_lines ?rs @ t2) = (Inr d, t2)"
    by simp_all
  from h2 rows2 nn g have "read_body B (join_lines ls @ t2) = (Inr g, t2)"
    by (simp add: read_body_def seq_def zeros_def)
  with r show ?thesis by simp
qed

subsection \<open>The text that write produces\<close>

lemma fold_append_concat:
  "fold (\<lambda>x out. out @ g x) xs out = out @ concat (map g xs)"
  by (induction xs arbitrary: out) auto

lemma write_row_text:
  "write_row B q missing (snd (shape q)) i out = out @ row_line B q missing i @ [CHR 0x0A]"
proof -
  have "write_cell B q missing i = (\<lambda>j out. out @ fmt B (cell_out q missing i j) @ '' '')"
    by (intro ext) (simp add: write_cell_def)
  then show ?thesis
    by (simp add: write_row_def row_line_def fold_append_concat)
qed

lemma fold_write_row:
  "fold (write_row B q missing (snd (shape q))) idx out =
     out @ join_lines (map (row_line B q missing) idx)"
  by (induction idx arbitrary: out) (simp_all add: write_row_text join_lines_def)

lemma ljust_keywords:
  "ljust 16 ''ncols'' = ''ncols           ''"
  "ljust 16 ''nrows'' = ''nrows           ''"
  "ljust 16 ''xllcorner'' = ''xllcorner       ''"
  "ljust 16 ''yllcorner'' = ''yllcorner       ''"
  "ljust 16 ''cellsize'' = ''cellsize        ''"
  "ljust 16 ''NODATA_value'' = ''NODATA_value    ''"
  by (simp_all add: ljust_def numeral_eq_Suc)

lemma write_body_text:
  "write_body B q missing out = out @ join_lines (file_lines B q missing)"
proof -
  obtain ny nx where shp: "shape q = (ny, nx)" by (cases "shape q")
  have rows: "fold (write_row B q missing nx) idx out' =
     out' @ join_lines (map (row_line B q missing) idx)" for idx out'
    using fold_write_row [of B q missing idx out'] by (simp add: shp)
  show ?thesis
    by (simp add: write_body_def shp rows file_lines_def header_fields_def header_line_def
        ljust_keywords join_lines_def)
qed

lemma row_line_no_nl:
  "\<forall>j<snd (shape q). CHR 0x0A \<notin> set (fmt B (cell_out q missing i j)) \<Longrightarrow>
   CHR 0x0A \<notin> set (row_line B q missing i)"
  by (auto simp: row_line_def)

lemma header_line_no_nl:
  "list_all (\<lambda>kv. CHR 0x0A \<notin> set (snd kv)) (header_fields B q missing) \<Longrightarrow>
   list_all (\<lambda>l. CHR 0x0A \<notin> set l) (map header_line (header_fields B q missing))"
  by (simp add: header_fields_def header_line_def ljust_def)

lemma length_header_fields: "length (header_fields B q m) = 6"
  by (simp add: header_fields_def)

lemma length_file_lines: "length (file_lines B q m) = 6 + fst (shape q)"
  by (simp add: file_lines_def length_header_fields)

lemma file_lines_row:
  "k < fst (shape q) \<Longrightarrow> file_lines B q m ! (6 + k) = row_line B q m (fst (shape q) - 1 - k)"
  by (simp add: file_lines_def length_header_fields nth_append rev_nth)

lemma file_lines_no_nl:
  assumes "list_all (\<lambda>kv. CHR 0x0A \<notin> set (snd kv)) (header_fields B q m)"
    and "\<forall>i<fst (shape q). \<forall>j<snd (shape q). CHR 0x0A \<notin> set (fmt B (cell_out q m i j))"
  shows "list_all (\<lambda>l. CHR 0x0A \<notin> set l) (file_lines B q m)"
proof -
  have "CHR 0x0A \<notin> set (row_line B q m i)" if "i < fst (shape q)" for i
    using assms(2) that by (intro row_line_no_nl) simp
  then have "list_all (\<lambda>l. CHR 0x0A \<notin> set l) (map (row_line B q m) (rev [0..<fst (shape q)]))"
    by (simp add: list_all_iff)
  with header_line_no_nl [OF assms(1)] show ?thesis by (simp add: file_lines_def)
qed

lemma split_ws_row_line:
  assumes "\<forall>j<snd (shape q). token (fmt B (cell_out q m i j))"
  shows "split_ws (row_line B q m i @ [CHR 0x0A]) =
           map (\<lambda>j. fmt B (cell_out q m i j)) [0..<snd (shape q)]"
proof -
  let ?ts = "map (\<lambda>j. fmt B (cell_out q m i j)) [0..<snd (shape q)]"
  have toks: "list_all token ?ts" using assms by (simp add: list_all_iff)
  have "row_line B q m i = concat (map (\<lambda>t. t @ '' '') ?ts)"
    by (simp add: row_line_def comp_def)
  then show ?thesis using split_ws_row [OF toks] by simp
qed

lemma split_header_fields:
  assumes "list_all (\<lambda>kv. token (snd kv)) (header_fields B q m)"
  shows "map (\<lambda>l. split_ws l ! 1) (map header_line (header_fields B q m)) =
           map snd (header_fields B q m)"
    and "list_all (\<lambda>l. CHR 0x0A \<notin> set l \<and> 2 \<le> length (split_ws l))
           (map header_line (header_fields B q m))"
  using assms
  by (simp_all add: header_fields_def header_line_def split_ws_ljust keyword_tokens token_no_nl)
    (simp_all add: ljust_def)

subsection \<open>Reading the text that write produces\<close>

lemma parse_row_row_line:
  assumes "\<forall>j<snd (shape q). token (fmt B (cell_out q m i j)) \<and>
             py_float B (fmt B (cell_out q m i j)) = Some (r (cell_out q m i j))"
  shows "parse_row B (snd (shape q)) (row_line B q m i @ [CHR 0x0A]) =
           Some (map (\<lambda>j. r (cell_out q m i j)) [0..<snd (shape q)])"
proof -
  let ?js = "[0..<snd (shape q)]"
  let ?ts = "map (\<lambda>j. fmt B (cell_out q m i j)) ?js"
  have toks: "list_all token ?ts" using assms by (simp add: list_all_iff)
  have "row_line B q m i = concat (map (\<lambda>t. t @ '' '') ?ts)"
    by (simp add: row_line_def comp_def)
  then have sp: "split_ws (row_line B q m i @ [CHR 0x0A]) = ?ts"
    using split_ws_row [OF toks] by simp
  have "map (py_float B) ?ts = map (\<lambda>j. Some (r (cell_out q m i j))) ?js"
    using assms by simp
  then have "those (map (py_float B) ?ts) = Some (map (\<lambda>j. r (cell_out q m i j)) ?js)"
    by (simp only: those_map_Some)
  then show ?thesis by (simp add: parse_row_def sp assign_row_def)
qed

lemma roundtrip_rows:
  assumes cells: "\<forall>i<fst (shape q). \<forall>j<snd (shape q). token (fmt B (cell_out q m i j)) \<and>
             py_float B (fmt B (cell_out q m i j)) = Some (r (cell_out q m i j))"
    and len: "length data = fst (shape q)"
  shows "read_rows B (snd (shape q)) (rev [0..<fst (shape q)]) data
           (join_lines (map (row_line B q m) (rev [0..<fst (shape q)]))) =
         (Inr (map (\<lambda>i. map (\<lambda>j. r (cell_out q m i j)) [0..<snd (shape q)]) [0..<fst (shape q)]), [])"
proof -
  let ?ny = "fst (shape q)" and ?nx = "snd (shape q)"
  let ?R = "map (row_line B q m) (rev [0..<?ny])"
  let ?s = "join_lines ?R"
  have "CHR 0x0A \<notin> set (row_line B q m i)" if "i < ?ny" for i
    using cells that by (intro row_line_no_nl) (simp add: token_no_nl)
  then have nl: "list_all (\<lambda>l. CHR 0x0A \<notin> set l) ?R"
    by (simp add: list_all_iff)
  have line: "line_at k ?s = row_line B q m (?ny - 1 - k) @ [CHR 0x0A]" if "k < ?ny" for k
    using join_lines_line_at [OF nl, of k "[]"] that by (simp add: rev_nth)
  have row: "parse_row B ?nx (line_at k ?s) = Some (map (\<lambda>j. r (cell_out q m (?ny - 1 - k) j)) [0..<?nx])"
    if "k < ?ny" for k
    using that cells by (simp add: line parse_row_row_line)
  have "\<forall>k<length (rev [0..<?ny]). parse_row B ?nx (line_at k ?s) \<noteq> None"
    using row by simp
  from read_rows_succeed [OF this, of data] obtain d where
    d: "read_rows B ?nx (rev [0..<?ny]) data ?s = (Inr d, skip_lines ?ny ?s)"
    by auto
  have rest: "skip_lines ?ny ?s = []"
    using join_lines_skip [OF nl, of "[]"] by simp
  from read_rows_rev [OF d len] have ld: "length d = ?ny"
    and rows: "\<forall>k<?ny. parse_row B ?nx (line_at k ?s) = Some (d ! (?ny - 1 - k))"
    by simp_all
  have "d ! i = map (\<lambda>j. r (cell_out q m i j)) [0..<?nx]" if "i < ?ny" for i
  proof -
    define k where "k = ?ny - 1 - i"
    from that have k: "k < ?ny" and i: "?ny - 1 - k = i" by (simp_all add: k_def)
    from rows k have "parse_row B ?nx (line_at k ?s) = Some (d ! (?ny - 1 - k))" by blast
    with row [OF k] show ?thesis unfolding i by simp
  qed
  then have "d = map (\<lambda>i. map (\<lambda>j. r (cell_out q m i j)) [0..<?nx]) [0..<?ny]"
    using ld by (intro nth_equalityI) simp_all
  with d rest show ?thesis by simp
qed

lemma roundtrip_mask:
  assumes wf: "wf_grid q"
    and self: "py_eq B (r m) (r m)"
    and other: "\<forall>i<fst (shape q). \<forall>j<snd (shape q).
                 \<not> is_missing q i j \<longrightarrow> \<not> py_eq B (r (getitem q i j)) (r m)"
  shows "map (map (\<lambda>v. py_eq B v (r m)))
           (map (\<lambda>i. map (\<lambda>j. r (cell_out q m i j)) [0..<snd (shape q)]) [0..<fst (shape q)])
         = missing_mask q"
proof -
  have row: "map (\<lambda>j. py_eq B (r (cell_out q m i j)) (r m)) [0..<snd (shape q)] = missing_mask q ! i"
    if "i < fst (shape q)" for i
  proof -
    from wf that have "length (missing_mask q ! i) = snd (shape q)"
      by (simp add: wf_grid_def list_all_length)
    then show ?thesis
      unfolding list_eq_iff_nth_eq using that self other
      by (auto simp: cell_out_def is_missing_def)
  qed
  from wf have "length (missing_mask q) = fst (shape q)" by (simp add: wf_grid_def)
  then show ?thesis
    unfolding list_eq_iff_nth_eq using row by (simp add: comp_def)
qed

lemma roundtrip_body:
  assumes wf: "wf_grid q"
    and ints: "token (fmt_int B (snd (shape q)))" "token (fmt_int B (fst (shape q)))"
      "py_int B (fmt_int B (snd (shape q))) = Some (int (snd (shape q)))"
      "py_int B (fmt_int B (fst (shape q))) = Some (int (fst (shape q)))"
    and hdr: "\<forall>v\<in>set [fst (origin q), snd (origin q), delta q, m].
                token (fmt B v) \<and> py_float B (fmt B v) = Some (r v)"
    and cells: "\<forall>i<fst (shape q). \<forall>j<snd (shape q). token (fmt B (cell_out q m i j)) \<and>
             py_float B (fmt B (cell_out q m i j)) = Some (r (cell_out q m i j))"
    and self: "py_eq B (r m) (r m)"
    and other: "\<forall>i<fst (shape q). \<forall>j<snd (shape q).
                 \<not> is_missing q i j \<longrightarrow> \<not> py_eq B (r (getitem q i j)) (r m)"
  shows "read_body B (write_body B q m []) =
           (Inr \<lparr>origin = (r (fst (origin q)), r (snd (origin q))), delta = r (delta q),
                 shape = shape q,
                 values = map (\<lambda>i. map (\<lambda>j. r (cell_out q m i j)) [0..<snd (shape q)])
                            [0..<fst (shape q)],
                 missing_mask = missing_mask q\<rparr>, [])"
proof -
  let ?ny = "fst (shape q)" and ?nx = "snd (shape q)"
  let ?H = "map header_line (header_fields B q m)"
  let ?R = "map (row_line B q m) (rev [0..<?ny])"
  have wt: "write_body B q m [] = join_lines ?H @ join_lines ?R"
    by (simp add: write_body_text file_lines_def join_lines_append)
  have ft: "list_all (\<lambda>kv. token (snd kv)) (header_fields B q m)"
    using ints hdr by (simp add: header_fields_def)
  have hv: "header_values B (map (\<lambda>l. split_ws l ! 1) ?H) =
     Inr (int ?nx, int ?ny, r (fst (origin q)), r (snd (origin q)), r (delta q), r m)"
    unfolding split_header_fields(1) [OF ft] using ints hdr
    by (simp add: header_values_def header_fields_def)
  have "length ?H = 6" by (simp add: header_fields_def)
  from read_header_lines(2) [OF this split_header_fields(2) [OF ft] hv]
  have h: "read_header B (join_lines ?H @ join_lines ?R) =
     (Inr (int ?nx, int ?ny, r (fst (origin q)), r (snd (origin q)), r (delta q), r m),
      join_lines ?R)" .
  have rows: "read_rows B ?nx (rev [0..<?ny]) (replicate ?ny (replicate ?nx (fzero B))) (join_lines ?R)
     = (Inr (map (\<lambda>i. map (\<lambda>j. r (cell_out q m i j)) [0..<?nx]) [0..<?ny]), [])"
    using roundtrip_rows [OF cells, of "replicate ?ny (replicate ?nx (fzero B))"] by simp
  have g: "GridData B (r (fst (origin q)), r (snd (origin q))) (r (delta q)) (shape q)
       (map (\<lambda>i. map (\<lambda>j. r (cell_out q m i j)) [0..<?nx]) [0..<?ny]) (r m) =
     \<lparr>origin = (r (fst (origin q)), r (snd (origin q))), delta = r (delta q),
      shape = shape q,
      values = map (\<lambda>i. map (\<lambda>j. r (cell_out q m i j)) [0..<?nx]) [0..<?ny],
      missing_mask = missing_mask q\<rparr>"
    unfolding GridData_def roundtrip_mask [OF wf self other] by simp
  show ?thesis
    by (simp add: wt read_body_def h seq_def zeros_def rows g)
qed

subsection \<open>Evaluation on the concrete inputs\<close>

lemmas eval_defs = read_body_def read_header_def rd_int_def rd_float_def rd_def seq_def
  split_ws_def is_space_def zeros_def parse_row_def assign_row_def GridData_def
  line_at_def join_lines_def B0_def float_table_def int_table_def

lemma all_less_two: "(\<forall>i<2::nat. P i) \<longleftrightarrow> P 0 \<and> P (Suc 0)"
  by (auto simp: less_2_cases_iff)

lemma all_less_six: "(\<forall>i<6::nat. P i) \<longleftrightarrow> P 0 \<and> P 1 \<and> P 2 \<and> P 3 \<and> P 4 \<and> P 5"
proof
  assume "\<forall>i<6. P i"
  then show "P 0 \<and> P 1 \<and> P 2 \<and> P 3 \<and> P 4 \<and> P 5" by simp
next
  assume a: "P 0 \<and> P 1 \<and> P 2 \<and> P 3 \<and> P 4 \<and> P 5"
  show "\<forall>i<6. P i"
  proof (intro allI impI)
    fix i :: nat assume "i < 6"
    then have "i = 0 \<or> i = 1 \<or> i = 2 \<or> i = 3 \<or> i = 4 \<or> i = 5" by arith
    with a show "P i" by auto
  qed
qed


section \<open>The claims\<close>

subsection \<open>C1: writing a grid and reading the text back\<close>

text \<open>
  Claim C1, amended. Let \<open>r v\<close> be the number that the text of \<open>v\<close> reads back as
  (\<open>v\<close> itself when the text is exact), for the numbers that \<open>write\<close> prints, each
  printed as a token, and let the two shape entries read back as themselves. If the
  missing value read back equals itself, and no cell that is not masked reads back
  equal to it, then reading the text that \<open>write\<close> produced for a well-formed grid
  consumes all of it and returns the grid with the same shape, the same mask, the origin,
  cell size and cells read back from their texts, a masked cell holding the missing
  value.
\<close>

theorem write_read_roundtrip:
  assumes "wf_grid q"
    and "token (fmt_int B (snd (shape q)))" and "token (fmt_int B (fst (shape q)))"
    and "py_int B (fmt_int B (snd (shape q))) = Some (int (snd (shape q)))"
    and "py_int B (fmt_int B (fst (shape q))) = Some (int (fst (shape q)))"
    and "\<forall>v\<in>set [fst (origin q), snd (origin q), delta q, missing].
           token (fmt B v) \<and> py_float B (fmt B v) = Some (r v)"
    and "\<forall>i<fst (shape q). \<forall>j<snd (shape q).
           token (fmt B (cell_out q missing i j)) \<and>
           py_float B (fmt B (cell_out q missing i j)) = Some (r (cell_out q missing i j))"
    and "py_eq B (r missing) (r missing)"
    and "\<forall>i<fst (shape q). \<forall>j<snd (shape q).
           \<not> is_missing q i j \<longrightarrow> \<not> py_eq B (r (getitem q i j)) (r missing)"
  shows "read_body B (write_body B q missing []) =
           (Inr \<lparr>origin = (r (fst (origin q)), r (snd (origin q))), delta = r (delta q),
                 shape = shape q,
                 values = map (\<lambda>i. map (\<lambda>j. r (cell_out q missing i j)) [0..<snd (shape q)])
                            [0..<fst (shape q)],
                 missing_mask = missing_mask q\<rparr>, [])"
  using assms by (rule roundtrip_body)

text \<open>
  The grid with one masked cell, written with the missing value -9999 and read back.
\<close>

theorem write_read_roundtrip_witness:
  "read_body B0 (write_body B0 masked_grid (- 9999) []) = (Inr masked_grid_read, [])"
proof -
  have s: "shape masked_grid = (2, 2)" "origin masked_grid = (0, 0)" "delta masked_grid = 1"
    "missing_mask masked_grid = [[False, False], [True, False]]"
    by (simp_all add: masked_grid_def)
  have wf: "wf_grid masked_grid"
    by (simp add: wf_grid_def masked_grid_def)
  have c: "cell_out masked_grid (- 9999) 0 0 = 1" "cell_out masked_grid (- 9999) 0 (Suc 0) = 2"
    "cell_out masked_grid (- 9999) (Suc 0) 0 = - 9999"
    "cell_out masked_grid (- 9999) (Suc 0) (Suc 0) = 5"
    by (simp_all add: cell_out_def is_missing_def getitem_def masked_grid_def)
  have g: "getitem masked_grid 0 0 = 1" "getitem masked_grid 0 (Suc 0) = 2"
    "getitem masked_grid (Suc 0) (Suc 0) = 5"
    "\<not> is_missing masked_grid 0 0" "\<not> is_missing masked_grid 0 (Suc 0)"
    "is_missing masked_grid (Suc 0) 0" "\<not> is_missing masked_grid (Suc 0) (Suc 0)"
    by (simp_all add: is_missing_def getitem_def masked_grid_def)
  have p: "fmt B0 0 = ''0.0''" "fmt B0 1 = ''1.0''" "fmt B0 2 = ''2.0''"
    "fmt B0 (- 9999) = ''-9999.0''" "fmt B0 5 = ''5.0''" "fmt_int B0 2 = ''2''"
    by (simp_all add: B0_def float_table_def int_table_def)
  have f: "py_float B0 ''0.0'' = Some 0" "py_float B0 ''1.0'' = Some 1" "py_float B0 ''2.0'' = Some 2"
    "py_float B0 ''-9999.0'' = Some (- 9999)" "py_float B0 ''5.0'' = Some 5"
    "py_int B0 ''2'' = Some 2" "py_eq B0 = (=)"
    by (simp_all add: B0_def float_table_def int_table_def)
  have tk: "token ''0.0''" "token ''1.0''" "token ''2.0''" "token ''-9999.0''" "token ''5.0''"
    "token ''2''"
    by (simp_all add: token_def is_space_def)
  have "read_body B0 (write_body B0 masked_grid (- 9999) []) =
           (Inr \<lparr>origin = ((\<lambda>x. x) (fst (origin masked_grid)), (\<lambda>x. x) (snd (origin masked_grid))),
                 delta = (\<lambda>x. x) (delta masked_grid),
                 shape = shape masked_grid,
                 values = map (\<lambda>i. map (\<lambda>j. (\<lambda>x. x) (cell_out masked_grid (- 9999) i j))
                                     [0..<snd (shape masked_grid)])
                            [0..<fst (shape masked_grid)],
                 missing_mask = missing_mask masked_grid\<rparr>, [])"
    by (rule write_read_roundtrip) (simp_all add: s all_less_two c g p f tk wf)
  then show ?thesis
    by (simp add: s c masked_grid_read_def upt_rec numeral_2_eq_2)
qed

text \<open>
  The claim as stated fails for a missing value that equals the number of a cell that
  is not masked: the cell comes back masked.
\<close>

theorem write_read_roundtrip_counterexample:
  "wf_grid collision_grid \<and> \<not> is_missing collision_grid 0 0 \<and>
   read_body B0 (write_body B0 collision_grid 5 []) =
     (Inr (collision_grid\<lparr>missing_mask := [[True]]\<rparr>), [])"
  by (simp add: eval_defs collision_grid_def wf_grid_def is_missing_def write_body_def
      write_row_def write_cell_def cell_out_def getitem_def)

subsection \<open>C2: the scenario of the specification and the order of the rows\<close>

text \<open>
  Claim C2. Whenever the builtins read the numerals of the scenario as the numbers
  \<open>z\<close>, \<open>c\<close>, \<open>nd\<close>, \<open>v1\<close>, \<open>v2\<close>, \<open>v5\<close>, \<open>v6\<close> and none of the four cell
  values equals the missing value, reading the scenario file returns the grid with
  \<open>values[0] = [v1, v2]\<close>, \<open>values[1] = [v5, v6]\<close>, no masked cell, origin \<open>(z, z)\<close>
  and cell size \<open>c\<close>. In general, when \<open>read\<close> returns a grid, the data line number
  \<open>k\<close> (the line \<open>6 + k\<close> of the stream) is the storage row \<open>nrows - 1 - k\<close>: the
  first data line is the last row and the last data line is row 0.
\<close>

theorem read_scenario_row_order:
  "(py_int B ''2'' = Some 2 \<and> py_float B ''0.0'' = Some z \<and> py_float B ''10.0'' = Some c \<and>
    py_float B ''-1.0'' = Some nd \<and> py_float B ''1.0'' = Some v1 \<and>
    py_float B ''2.0'' = Some v2 \<and> py_float B ''5.0'' = Some v5 \<and>
    py_float B ''6.0'' = Some v6 \<and>
    \<not> py_eq B v1 nd \<and> \<not> py_eq B v2 nd \<and> \<not> py_eq B v5 nd \<and> \<not> py_eq B v6 nd \<longrightarrow>
    read_body B scenario_text =
      (Inr \<lparr>origin = (z, z), delta = c, shape = (2, 2), values = [[v1, v2], [v5, v6]],
            missing_mask = [[False, False], [False, False]]\<rparr>, [])) \<and>
   (read_body B s = (Inr g, r) \<longrightarrow>
      length (values g) = fst (shape g) \<and>
      (\<forall>k<fst (shape g).
         parse_row B (snd (shape g)) (line_at (6 + k) s) = Some (values g ! (fst (shape g) - 1 - k))))"
proof (intro conjI impI)
  assume "py_int B ''2'' = Some 2 \<and> py_float B ''0.0'' = Some z \<and> py_float B ''10.0'' = Some c \<and>
    py_float B ''-1.0'' = Some nd \<and> py_float B ''1.0'' = Some v1 \<and>
    py_float B ''2.0'' = Some v2 \<and> py_float B ''5.0'' = Some v5 \<and>
    py_float B ''6.0'' = Some v6 \<and>
    \<not> py_eq B v1 nd \<and> \<not> py_eq B v2 nd \<and> \<not> py_eq B v5 nd \<and> \<not> py_eq B v6 nd"
  then show "read_body B scenario_text =
      (Inr \<lparr>origin = (z, z), delta = c, shape = (2, 2), values = [[v1, v2], [v5, v6]],
            missing_mask = [[False, False], [False, False]]\<rparr>, [])"
    by (simp add: eval_defs scenario_text_def numeral_2_eq_2 upt_rec)
next
  assume a: "read_body B s = (Inr g, r)"
  then obtain nx ny xo yo dx m d where
    nn: "0 \<le> nx" "0 \<le> ny"
    and rows: "read_rows B (nat nx) (rev [0..<nat ny])
       (replicate (nat ny) (replicate (nat nx) (fzero B))) (skip_lines 6 s) = (Inr d, r)"
    and g: "g = GridData B (xo, yo) dx (nat ny, nat nx) d m"
    by (rule read_body_Inr)
  from read_rows_rev [OF rows] have ld: "length d = nat ny"
    and rw: "\<forall>k<nat ny. parse_row B (nat nx) (line_at k (skip_lines 6 s)) = Some (d ! (nat ny - 1 - k))"
    by simp_all
  from ld g show "length (values g) = fst (shape g)" by (simp add: GridData_def)
  from rw g show "\<forall>k<fst (shape g).
         parse_row B (snd (shape g)) (line_at (6 + k) s) = Some (values g ! (fst (shape g) - 1 - k))"
    by (simp add: GridData_def line_at_skip)
qed

text \<open>
  The scenario with the numerals read as the real numbers they denote.
\<close>

theorem read_scenario_row_order_witness:
  "read_body B0 scenario_text = (Inr scenario_grid, []) \<and>
   parse_row B0 2 (line_at 6 scenario_text) = Some (values scenario_grid ! 1) \<and>
   parse_row B0 2 (line_at 7 scenario_text) = Some (values scenario_grid ! 0) \<and>
   line_at 6 scenario_text = ''5.0 6.0\<newline>'' \<and> line_at 7 scenario_text = ''1.0 2.0\<newline>''"
proof -
  note t = read_scenario_row_order [of B0 0 10 "- 1" 1 2 5 6 scenario_text scenario_grid "[]"]
  have hyp: "py_int B0 ''2'' = Some 2 \<and> py_float B0 ''0.0'' = Some 0 \<and>
    py_float B0 ''10.0'' = Some 10 \<and> py_float B0 ''-1.0'' = Some (- 1) \<and>
    py_float B0 ''1.0'' = Some 1 \<and> py_float B0 ''2.0'' = Some 2 \<and>
    py_float B0 ''5.0'' = Some 5 \<and> py_float B0 ''6.0'' = Some 6 \<and>
    \<not> py_eq B0 1 (- 1) \<and> \<not> py_eq B0 2 (- 1) \<and> \<not> py_eq B0 5 (- 1) \<and> \<not> py_eq B0 6 (- 1)"
    by (simp add: B0_def float_table_def int_table_def)
  from t hyp have rb: "read_body B0 scenario_text = (Inr scenario_grid, [])"
    by (simp add: scenario_grid_def)
  with t have rows: "\<forall>k<fst (shape scenario_grid). parse_row B0 (snd (shape scenario_grid))
      (line_at (6 + k) scenario_text) = Some (values scenario_grid ! (fst (shape scenario_grid) - 1 - k))"
    by blast
  have "parse_row B0 2 (line_at 6 scenario_text) = Some (values scenario_grid ! 1)"
    using rows [rule_format, of 0] by (simp add: scenario_grid_def)
  moreover have "parse_row B0 2 (line_at 7 scenario_text) = Some (values scenario_grid ! 0)"
    using rows [rule_format, of 1] by (simp add: scenario_grid_def)
  moreover have "line_at 6 scenario_text = ''5.0 6.0\<newline>''" "line_at 7 scenario_text = ''1.0 2.0\<newline>''"
    by (simp_all add: line_at_def scenario_text_def numeral_eq_Suc)
  ultimately show ?thesis using rb by simp
qed

subsection \<open>C3: the data lines that write emits\<close>

text \<open>
  Claim C3. When the header values hold no line feed and the numbers of the cells print
  as tokens, the text that \<open>write\<close> produces for a grid of \<open>ny\<close> rows and \<open>nx\<close>
  columns ends after the line \<open>6 + ny\<close>: there are exactly \<open>ny\<close> data lines. The data
  line number \<open>k\<close> is the line of the storage row \<open>ny - 1 - k\<close>, so the first is the
  row \<open>ny - 1\<close> and the last is row 0; its tokens are the \<open>nx\<close> numbers of the row from
  column 0 on; and the token of a masked cell is the missing value, whatever number the
  cell stores.
\<close>

theorem write_rows_layout:
  assumes "list_all (\<lambda>kv. CHR 0x0A \<notin> set (snd kv)) (header_fields B q missing)"
    and "\<forall>i<fst (shape q). \<forall>j<snd (shape q). token (fmt B (cell_out q missing i j))"
  shows "skip_lines (6 + fst (shape q)) (write_body B q missing []) = [] \<and>
         (\<forall>k<fst (shape q).
            line_at (6 + k) (write_body B q missing []) =
              row_line B q missing (fst (shape q) - 1 - k) @ [CHR 0x0A] \<and>
            split_ws (line_at (6 + k) (write_body B q missing [])) =
              map (\<lambda>j. fmt B (cell_out q missing (fst (shape q) - 1 - k) j)) [0..<snd (shape q)]) \<and>
         (\<forall>i<fst (shape q). \<forall>j<snd (shape q). is_missing q i j \<longrightarrow>
            split_ws (line_at (6 + (fst (shape q) - 1 - i)) (write_body B q missing [])) ! j =
              fmt B missing)"
proof -
  let ?ny = "fst (shape q)" and ?nx = "snd (shape q)"
  let ?w = "write_body B q missing []"
  have w: "?w = join_lines (file_lines B q missing) @ []"
    by (simp add: write_body_text)
  have "\<forall>i<?ny. \<forall>j<?nx. CHR 0x0A \<notin> set (fmt B (cell_out q missing i j))"
    using assms(2) by (simp add: token_no_nl)
  with assms(1) have nl: "list_all (\<lambda>l. CHR 0x0A \<notin> set l) (file_lines B q missing)"
    by (rule file_lines_no_nl)
  have rest: "skip_lines (6 + ?ny) ?w = []"
    unfolding w using join_lines_skip [OF nl, of "[]"] by (simp add: length_file_lines)
  have line: "line_at (6 + k) ?w = row_line B q missing (?ny - 1 - k) @ [CHR 0x0A]"
    if "k < ?ny" for k
    unfolding w using join_lines_line_at [OF nl, of "6 + k" "[]"] that
    by (simp add: length_file_lines file_lines_row)
  have toks: "split_ws (line_at (6 + k) ?w) =
      map (\<lambda>j. fmt B (cell_out q missing (?ny - 1 - k) j)) [0..<?nx]" if "k < ?ny" for k
  proof -
    from that have "?ny - 1 - k < ?ny" by simp
    with assms(2) have "\<forall>j<?nx. token (fmt B (cell_out q missing (?ny - 1 - k) j))" by blast
    then show ?thesis unfolding line [OF that] by (rule split_ws_row_line)
  qed
  have miss: "split_ws (line_at (6 + (?ny - 1 - i)) ?w) ! j = fmt B missing"
    if "i < ?ny" "j < ?nx" "is_missing q i j" for i j
  proof -
    from that(1) have k: "?ny - 1 - i < ?ny" and i: "?ny - 1 - (?ny - 1 - i) = i" by simp_all
    show ?thesis unfolding toks [OF k] i using that(2,3) by (simp add: cell_out_def)
  qed
  from rest line toks miss show ?thesis by blast
qed

text \<open>
  The grid with a masked cell that stores 3.5, written with the missing value -9999.
\<close>

theorem write_rows_layout_witness:
  "skip_lines 8 (write_body B0 masked_grid (- 9999) []) = [] \<and>
   line_at 6 (write_body B0 masked_grid (- 9999) []) = ''-9999.0 5.0 \<newline>'' \<and>
   line_at 7 (write_body B0 masked_grid (- 9999) []) = ''1.0 2.0 \<newline>'' \<and>
   getitem masked_grid 1 0 = 7 / 2 \<and> is_missing masked_grid 1 0 \<and>
   split_ws (line_at 6 (write_body B0 masked_grid (- 9999) [])) ! 0 = ''-9999.0''"
proof -
  have f: "header_fields B0 masked_grid (- 9999) =
      [(''ncols'', ''2''), (''nrows'', ''2''), (''xllcorner'', ''0.0''), (''yllcorner'', ''0.0''),
       (''cellsize'', ''1.0''), (''NODATA_value'', ''-9999.0'')]"
    by (simp add: header_fields_def masked_grid_def B0_def float_table_def int_table_def)
  have nl: "list_all (\<lambda>kv. CHR 0x0A \<notin> set (snd kv)) (header_fields B0 masked_grid (- 9999))"
    by (simp add: f)
  have s: "shape masked_grid = (2, 2)" by (simp add: masked_grid_def)
  have c: "cell_out masked_grid (- 9999) 0 0 = 1" "cell_out masked_grid (- 9999) 0 (Suc 0) = 2"
    "cell_out masked_grid (- 9999) (Suc 0) 0 = - 9999"
    "cell_out masked_grid (- 9999) (Suc 0) (Suc 0) = 5"
    by (simp_all add: cell_out_def is_missing_def getitem_def masked_grid_def)
  have p: "fmt B0 1 = ''1.0''" "fmt B0 2 = ''2.0''" "fmt B0 (- 9999) = ''-9999.0''" "fmt B0 5 = ''5.0''"
    by (simp_all add: B0_def float_table_def)
  have tk: "\<forall>i<fst (shape masked_grid). \<forall>j<snd (shape masked_grid).
      token (fmt B0 (cell_out masked_grid (- 9999) i j))"
    by (simp add: s all_less_two c p token_def is_space_def)
  have m: "getitem masked_grid 1 0 = 7 / 2" "is_missing masked_grid 1 0"
    by (simp_all add: getitem_def is_missing_def masked_grid_def)
  note t = write_rows_layout [OF nl tk]
  from t have "skip_lines 8 (write_body B0 masked_grid (- 9999) []) = []"
    by (simp add: s)
  moreover from t [THEN conjunct2, THEN conjunct1, rule_format, of 0]
  have "line_at 6 (write_body B0 masked_grid (- 9999) []) = ''-9999.0 5.0 \<newline>''"
    by (simp add: row_line_def s c p upt_rec)
  moreover from t [THEN conjunct2, THEN conjunct1, rule_format, of 1]
  have "line_at 7 (write_body B0 masked_grid (- 9999) []) = ''1.0 2.0 \<newline>''"
    by (simp add: row_line_def s c p upt_rec)
  moreover from t [THEN conjunct2, THEN conjunct2, rule_format, of 1 0] m
  have "split_ws (line_at 6 (write_body B0 masked_grid (- 9999) [])) ! 0 = ''-9999.0''"
    by (simp add: s p)
  ultimately show ?thesis using m by simp
qed

subsection \<open>C4: the header is read by position\<close>



subsection \<open>C5: a stream that ends before the last data line\<close>

text \<open>
  Claim C5, amended. When the header declares at least one column and the stream is at
  its end where the data line \<open>k\<close> of the \<open>nrows\<close> declared should start, \<open>read\<close>
  returns no grid: it fails with the ValueError of the row assignment, the empty list of
  the missing line not fitting a row of \<open>ncols\<close> cells. The code has no error of its own
  for a truncated input.
\<close>

theorem read_truncated:
  assumes "read_header B s = (Inr (nx, ny, xo, yo, dx, m), s')"
    and "1 \<le> nx" and "k < nat ny" and "skip_lines (6 + k) s = []"
  shows "fst (read_body B s) = Inl ValueError"
proof -
  from assms(4) have "split_ws (line_at (6 + k) s) = []"
    by (simp add: line_at_def split_ws_def)
  with assms(2) have "parse_row B (nat nx) (line_at (6 + k) s) = None"
    by (intro parse_row_count) simp_all
  with assms(1,3) show ?thesis by (rule read_body_bad_row)
qed

text \<open>
  Three rows declared, two data lines present.
\<close>

theorem read_truncated_witness:
  "read_header B0 truncated_text =
     (Inr (2, 3, 0, 0, 10, - 1), ''5.0 6.0\<newline>1.0 2.0\<newline>'') \<and>
   skip_lines (6 + 2) truncated_text = [] \<and>
   fst (read_body B0 truncated_text) = Inl ValueError"
proof -
  have h: "read_header B0 truncated_text =
     (Inr (2, 3, 0, 0, 10, - 1), ''5.0 6.0\<newline>1.0 2.0\<newline>'')"
    by (simp add: eval_defs truncated_text_def)
  have e: "skip_lines (6 + 2) truncated_text = []"
    by (simp add: truncated_text_def numeral_eq_Suc)
  from read_truncated [OF h _ _ e] h e show ?thesis by simp
qed

text \<open>
  The claim as stated fails when the header declares no column: the file declares three
  rows, holds two data lines, and \<open>read\<close> returns a grid of three empty rows.
\<close>

theorem read_truncated_counterexample:
  "skip_lines (6 + 2) no_columns_text = [] \<and>
   read_body B0 no_columns_text = (Inr no_columns_grid, [])"
  by (simp add: eval_defs no_columns_text_def no_columns_grid_def numeral_eq_Suc)

subsection \<open>C6: the number of tokens of a data line\<close>

text \<open>
  Claim C6, amended. A data line whose number of tokens is neither \<open>ncols\<close> nor one
  makes \<open>read\<close> fail with ValueError. A data line of exactly one token that is a
  number is accepted: the row assignment fills the whole row with that number.
\<close>

theorem read_row_count:
  assumes "read_header B s = (Inr (nx, ny, xo, yo, dx, m), s')" and "k < nat ny"
  shows "(length (split_ws (line_at (6 + k) s)) \<noteq> nat nx \<and>
          length (split_ws (line_at (6 + k) s)) \<noteq> 1 \<longrightarrow>
            fst (read_body B s) = Inl ValueError) \<and>
         (\<forall>t v. split_ws (line_at (6 + k) s) = [t] \<and> py_float B t = Some v \<longrightarrow>
            parse_row B (nat nx) (line_at (6 + k) s) = Some (replicate (nat nx) v))"
proof (intro conjI impI allI)
  assume "length (split_ws (line_at (6 + k) s)) \<noteq> nat nx \<and>
          length (split_ws (line_at (6 + k) s)) \<noteq> 1"
  then have "parse_row B (nat nx) (line_at (6 + k) s) = None"
    by (intro parse_row_count) simp_all
  with assms show "fst (read_body B s) = Inl ValueError" by (rule read_body_bad_row)
next
  fix t v
  assume "split_ws (line_at (6 + k) s) = [t] \<and> py_float B t = Some v"
  then show "parse_row B (nat nx) (line_at (6 + k) s) = Some (replicate (nat nx) v)"
    by (cases "nat nx = 1") (simp_all add: parse_row_def assign_row_def)
qed

text \<open>
  A line of three tokens for two columns is refused; a line of one token fills the row.
\<close>

theorem read_row_count_witness:
  "length (split_ws (line_at 6 long_row_text)) = 3 \<and>
   fst (read_body B0 long_row_text) = Inl ValueError \<and>
   split_ws (line_at 6 short_row_text) = [''5.0''] \<and>
   parse_row B0 2 (line_at 6 short_row_text) = Some [5, 5]"
proof -
  have h: "read_header B0 long_row_text =
     (Inr (2, 2, 0, 0, 10, - 1), ''5.0 6.0 7.0\<newline>1.0 2.0\<newline>'')"
    by (simp add: eval_defs long_row_text_def)
  have h': "read_header B0 short_row_text =
     (Inr (2, 2, 0, 0, 10, - 1), ''5.0\<newline>1.0 2.0\<newline>'')"
    by (simp add: eval_defs short_row_text_def)
  have n: "length (split_ws (line_at (6 + 0) long_row_text)) = 3"
    by (simp add: long_row_text_def line_at_def split_ws_def is_space_def numeral_eq_Suc)
  have n': "split_ws (line_at (6 + 0) short_row_text) = [''5.0'']"
    by (simp add: short_row_text_def line_at_def split_ws_def is_space_def numeral_eq_Suc)
  have f: "py_float B0 ''5.0'' = Some 5"
    by (simp add: B0_def float_table_def)
  from read_row_count [OF h, of 0] n have "fst (read_body B0 long_row_text) = Inl ValueError"
    by simp
  moreover from read_row_count [OF h', of 0] n' f
  have "parse_row B0 (nat 2) (line_at (6 + 0) short_row_text) = Some (replicate (nat 2) 5)"
    by simp
  ultimately show ?thesis using n n' by (simp add: numeral_eq_Suc)
qed

text \<open>
  The claim as stated fails on a line of one token for two columns: \<open>read\<close> returns a
  grid whose row holds the number twice.
\<close>

theorem read_row_count_counterexample:
  "length (split_ws (line_at 6 short_row_text)) = 1 \<and>
   read_body B0 short_row_text = (Inr short_row_grid, [])"
  by (simp add: eval_defs short_row_text_def short_row_grid_def numeral_eq_Suc)

subsection \<open>C8: the header that write emits\<close>

text \<open>
  Claim C8. The text that \<open>write\<close> appends to a stream is the six header lines of
  \<open>header_fields\<close>, each the keyword padded to 16 columns and then the value, in the
  order ncols, nrows, xllcorner, yllcorner, cellsize, NODATA_value, with the values
  number of columns, number of rows, origin x, origin y, cell size and missing value;
  the data lines follow. When the values hold no line feed, these are the first six lines
  of the text and the data starts at the seventh.
\<close>

theorem write_header:
  "write_body B q missing out =
     out @ join_lines (map header_line (header_fields B q missing)) @
       join_lines (map (row_line B q missing) (rev [0..<fst (shape q)])) \<and>
   (list_all (\<lambda>kv. CHR 0x0A \<notin> set (snd kv)) (header_fields B q missing) \<longrightarrow>
      (\<forall>i<6. line_at i (write_body B q missing []) =
                header_line (header_fields B q missing ! i) @ [CHR 0x0A]) \<and>
      skip_lines 6 (write_body B q missing []) =
        join_lines (map (row_line B q missing) (rev [0..<fst (shape q)])))"
proof (intro conjI impI allI)
  show "write_body B q missing out =
     out @ join_lines (map header_line (header_fields B q missing)) @
       join_lines (map (row_line B q missing) (rev [0..<fst (shape q)]))"
    by (simp add: write_body_text file_lines_def join_lines_append)
next
  let ?H = "map header_line (header_fields B q missing)"
  let ?D = "join_lines (map (row_line B q missing) (rev [0..<fst (shape q)]))"
  assume "list_all (\<lambda>kv. CHR 0x0A \<notin> set (snd kv)) (header_fields B q missing)"
  then have nl: "list_all (\<lambda>l. CHR 0x0A \<notin> set l) ?H" by (rule header_line_no_nl)
  have w: "write_body B q missing [] = join_lines ?H @ ?D"
    by (simp add: write_body_text file_lines_def join_lines_append)
  show "skip_lines 6 (write_body B q missing []) = ?D"
    using join_lines_skip [OF nl, of ?D] by (simp add: w length_header_fields)
  fix i :: nat
  assume "i < 6"
  then show "line_at i (write_body B q missing []) =
                header_line (header_fields B q missing ! i) @ [CHR 0x0A]"
    using join_lines_line_at [OF nl, of i ?D] by (simp add: w length_header_fields)
qed

text \<open>
  The six header lines of a grid of two rows and two columns at the origin.
\<close>

theorem write_header_witness:
  "map (\<lambda>i. line_at i (write_body B0 masked_grid (- 9999) [])) [0, 1, 2, 3, 4, 5] =
     [''ncols           2\<newline>'', ''nrows           2\<newline>'', ''xllcorner       0.0\<newline>'',
      ''yllcorner       0.0\<newline>'', ''cellsize        1.0\<newline>'', ''NODATA_value    -9999.0\<newline>'']"
proof -
  have f: "header_fields B0 masked_grid (- 9999) =
      [(''ncols'', ''2''), (''nrows'', ''2''), (''xllcorner'', ''0.0''), (''yllcorner'', ''0.0''),
       (''cellsize'', ''1.0''), (''NODATA_value'', ''-9999.0'')]"
    by (simp add: header_fields_def masked_grid_def B0_def float_table_def int_table_def)
  have nl: "list_all (\<lambda>kv. CHR 0x0A \<notin> set (snd kv)) (header_fields B0 masked_grid (- 9999))"
    by (simp add: f)
  from write_header [of B0 masked_grid "- 9999" "[]"] nl
  have "\<forall>i<6. line_at i (write_body B0 masked_grid (- 9999) []) =
                header_line (header_fields B0 masked_grid (- 9999) ! i) @ [CHR 0x0A]"
    by blast
  then show ?thesis
    unfolding all_less_six by (simp add: f header_line_def ljust_keywords)
qed

subsection \<open>C10: nothing after the last data line is read\<close>

text \<open>
  Claim C10. When \<open>read\<close> returns a grid \<open>g\<close> for a stream that starts with
  \<open>6 + nrows\<close> complete lines, whatever follows these lines is left in the stream
  unread, and the same lines followed by any other text give the same grid \<open>g\<close>.
\<close>

theorem read_ignores_rest:
  assumes "list_all (\<lambda>l. CHR 0x0A \<notin> set l) ls"
    and "read_body B (join_lines ls @ t1) = (Inr g, r)"
    and "length ls = 6 + fst (shape g)"
  shows "r = t1 \<and> read_body B (join_lines ls @ t2) = (Inr g, t2)"
  using assms by (rule read_body_rest_free)

text \<open>
  The scenario file followed by more text.
\<close>

theorem read_ignores_rest_witness:
  "read_body B0 (scenario_text @ ''9.0 9.0\<newline>more text'') =
     (Inr scenario_grid, ''9.0 9.0\<newline>more text'')"
proof -
  let ?ls = "std_header @ [''5.0 6.0'', ''1.0 2.0'']"
  have j: "join_lines ?ls = scenario_text"
    by (simp add: join_lines_def std_header_def scenario_text_def)
  have nl: "list_all (\<lambda>l. CHR 0x0A \<notin> set l) ?ls"
    by (simp add: std_header_def)
  have rb: "read_body B0 (join_lines ?ls @ []) = (Inr scenario_grid, [])"
    unfolding j by (simp add: eval_defs scenario_text_def scenario_grid_def numeral_eq_Suc)
  have len: "length ?ls = 6 + fst (shape scenario_grid)"
    by (simp add: std_header_def scenario_grid_def)
  from read_ignores_rest [OF nl rb len, of "''9.0 9.0\<newline>more text''"]
  show ?thesis unfolding j by simp
qed

end
